theory Spec2Isabelle
  imports Complex_Main "HOL-Library.Multiset"
begin

section \<open>Data model of the COCO document\<close>

text \<open>
  The script \<^verbatim>\<open>split_coco_json.py\<close> reads a COCO document, splits its images
  into train, val and test and writes three documents. An image record is a JSON object
  with an \<^verbatim>\<open>id\<close>; an annotation record is a JSON object with an \<^verbatim>\<open>image_id\<close> and
  a \<^verbatim>\<open>category_id\<close>. All the other fields are passed through untouched, so they are
  kept as one opaque value. Python compares the records with \<^verbatim>\<open>==\<close> (by value),
  which is the equality of the records here.
\<close>

type_synonym json = string

record image =
  img_id :: int
  img_fields :: json

record annotation =
  image_id :: int
  category_id :: int
  ann_fields :: json

text \<open>
  \<^verbatim>\<open>info\<close>, \<^verbatim>\<open>licenses\<close> and \<^verbatim>\<open>categories\<close> are read with \<^verbatim>\<open>data.get(key, default)\<close>:
  they may be missing from the input.
\<close>

record dataset =
  images :: "image list"
  annotations :: "annotation list"
  info :: "json option"
  licenses :: "json option"
  categories :: "json option"

section \<open>The Python primitives the script uses\<close>

text \<open>
  The ratios are Python floats. They are modelled as real numbers: the rounding of the
  float product \<^verbatim>\<open>total * train_r\<close> and of the float sum of the ratios is not modelled.
  \<^verbatim>\<open>int(x)\<close> truncates towards zero.
\<close>

definition py_int :: "real \<Rightarrow> int" where
  "py_int x = (if 0 \<le> x then \<lfloor>x\<rfloor> else \<lceil>x\<rceil>)"

text \<open>
  A slice bound of a list of length \<open>n\<close>: a negative bound counts from the end, and
  every bound is clipped to \<open>0..n\<close>.
\<close>

definition slice_index :: "nat \<Rightarrow> int \<Rightarrow> nat" where
  "slice_index n i = (if i < 0 then nat (max (int n + i) 0) else min (nat i) n)"

text \<open>
  \<^verbatim>\<open>xs[lo:hi]\<close>; \<open>None\<close> is an omitted bound. A stop before the start gives the
  empty list.
\<close>

definition py_slice :: "'a list \<Rightarrow> int option \<Rightarrow> int option \<Rightarrow> 'a list" where
  "py_slice xs lo hi =
     (let n = length xs;
          start = (case lo of None \<Rightarrow> 0 | Some i \<Rightarrow> slice_index n i);
          stop = (case hi of None \<Rightarrow> n | Some i \<Rightarrow> slice_index n i)
      in take (stop - start) (drop start xs))"

text \<open>
  The module \<^verbatim>\<open>random\<close> is Python's library, not code of the repository: the generator
  is a parameter. \<open>seed\<close> builds the generator state of a seed; \<open>randbelow g n\<close>
  draws a number and returns the next state. The library's contract is that the number
  drawn is below \<open>n\<close>.
\<close>

record 'g rng =
  seed :: "int \<Rightarrow> 'g"
  randbelow :: "'g \<Rightarrow> nat \<Rightarrow> nat \<times> 'g"

definition rng_ok :: "'g rng \<Rightarrow> bool" where
  "rng_ok r \<longleftrightarrow> (\<forall>g n. 0 < n \<longrightarrow> fst (randbelow r g n) < n)"

text \<open>
  \<^verbatim>\<open>random.shuffle(x)\<close>:
  \<^verbatim>\<open>for i in reversed(range(1, len(x))): j = randbelow(i + 1); x[i], x[j] = x[j], x[i]\<close>.
  \<open>shuffle_from r k g x\<close> runs the iterations \<open>i = k, k - 1, ..., 1\<close>. Under the
  contract \<open>rng_ok\<close> the index \<open>j\<close> is at most \<open>i\<close>, inside the list.
\<close>

fun shuffle_from :: "'g rng \<Rightarrow> nat \<Rightarrow> 'g \<Rightarrow> 'a list \<Rightarrow> 'a list \<times> 'g" where
  "shuffle_from r 0 g x = (x, g)"
| "shuffle_from r (Suc k) g x =
     (let i = Suc k;
          (j, g') = randbelow r g (i + 1)
      in shuffle_from r k g' (x[i := x ! j, j := x ! i]))"

definition shuffle :: "'g rng \<Rightarrow> 'g \<Rightarrow> 'a list \<Rightarrow> 'a list \<times> 'g" where
  "shuffle r g x = shuffle_from r (length x - 1) g x"

text \<open>\<^verbatim>\<open>os.path\<close> of a POSIX system: \<^verbatim>\<open>join\<close> of two parts, \<^verbatim>\<open>basename\<close>, \<^verbatim>\<open>dirname\<close>.\<close>

definition join :: "string \<Rightarrow> string \<Rightarrow> string" where
  "join a b =
     (if b \<noteq> [] \<and> hd b = CHR ''/'' then b
      else if a = [] \<or> last a = CHR ''/'' then a @ b
      else a @ ''/'' @ b)"

definition basename :: "string \<Rightarrow> string" where
  "basename p = rev (takeWhile (\<lambda>c. c \<noteq> CHR ''/'') (rev p))"

definition dirname :: "string \<Rightarrow> string" where
  "dirname p =
     (let head = rev (dropWhile (\<lambda>c. c \<noteq> CHR ''/'') (rev p))
      in if head \<noteq> [] \<and> \<not> list_all (\<lambda>c. c = CHR ''/'') head
         then rev (dropWhile (\<lambda>c. c = CHR ''/'') (rev head))
         else head)"

section \<open>Stratifying the images\<close>

definition cat1_annotations :: "annotation list \<Rightarrow> annotation list" where
  "cat1_annotations anns = filter (\<lambda>ann. category_id ann = 0) anns"

definition cat2_annotations :: "annotation list \<Rightarrow> annotation list" where
  "cat2_annotations anns = filter (\<lambda>ann. category_id ann = 1) anns"

definition cat1_image_ids :: "annotation list \<Rightarrow> int set" where
  "cat1_image_ids anns = set (map image_id (cat1_annotations anns))"

definition cat2_image_ids :: "annotation list \<Rightarrow> int set" where
  "cat2_image_ids anns = set (map image_id (cat2_annotations anns))"

text \<open>
  The first loop over the images: an image whose id is referenced by an annotation of
  category 0 or 1 is appended to \<^verbatim>\<open>cat2_images\<close>, unless an equal record is already
  there. The accumulator is the list built so far.
\<close>

fun cat2_images_loop :: "int set \<Rightarrow> int set \<Rightarrow> image list \<Rightarrow> image list \<Rightarrow> image list" where
  "cat2_images_loop c1 c2 [] cat2_images = cat2_images"
| "cat2_images_loop c1 c2 (img # imgs) cat2_images =
     (if img_id img \<in> c2 \<or> img_id img \<in> c1
      then (if img \<notin> set cat2_images
            then cat2_images_loop c1 c2 imgs (cat2_images @ [img])
            else cat2_images_loop c1 c2 imgs cat2_images)
      else cat2_images_loop c1 c2 imgs cat2_images)"

definition cat2_images :: "dataset \<Rightarrow> image list" where
  "cat2_images data =
     cat2_images_loop (cat1_image_ids (annotations data)) (cat2_image_ids (annotations data))
       (images data) []"

text \<open>
  The second loop: every image that is not in \<^verbatim>\<open>cat2_images\<close> is appended to
  \<^verbatim>\<open>other_images\<close>, unless an equal record is already there.
\<close>

fun other_images_loop :: "image list \<Rightarrow> image list \<Rightarrow> image list \<Rightarrow> image list" where
  "other_images_loop cat2 [] other_images = other_images"
| "other_images_loop cat2 (img # imgs) other_images =
     (if img \<notin> set cat2
      then (if img \<notin> set other_images
            then other_images_loop cat2 imgs (other_images @ [img])
            else other_images_loop cat2 imgs other_images)
      else other_images_loop cat2 imgs other_images)"

definition other_images :: "dataset \<Rightarrow> image list" where
  "other_images data = other_images_loop (cat2_images data) (images data) []"

section \<open>Splitting one stratum\<close>

text \<open>
  \<^verbatim>\<open>split_list(items, train_r, val_r, test_r)\<close>: shuffle, then cut the shuffled list
  with three slices. \<^verbatim>\<open>test_r\<close> is not used by the body. The generator state is
  threaded through.
\<close>

definition train_count :: "nat \<Rightarrow> real \<Rightarrow> int" where
  "train_count total' train_r = py_int (real total' * train_r)"

definition val_count :: "nat \<Rightarrow> real \<Rightarrow> int" where
  "val_count total' val_r = py_int (real total' * val_r)"

definition slices :: "'a list \<Rightarrow> real \<Rightarrow> real \<Rightarrow> 'a list \<times> 'a list \<times> 'a list" where
  "slices items train_r val_r =
     (let total' = length items;
          tc = train_count total' train_r;
          vc = val_count total' val_r;
          train = py_slice items None (Some tc);
          val = py_slice items (Some tc) (Some (tc + vc));
          test = py_slice items (Some (tc + vc)) None
      in (train, val, test))"

definition split_list ::
  "'g rng \<Rightarrow> 'g \<Rightarrow> 'a list \<Rightarrow> real \<Rightarrow> real \<Rightarrow> real \<Rightarrow> ('a list \<times> 'a list \<times> 'a list) \<times> 'g" where
  "split_list r g items train_r val_r test_r =
     (let (items', g') = shuffle r g items
      in (slices items' train_r val_r, g'))"

section \<open>The three splits\<close>

text \<open>
  \<^verbatim>\<open>random.seed(42)\<close> replaces the state \<open>g0\<close> the process-wide generator had when
  the function was called. The two strata are split one after the other with the same
  generator, and the parts are concatenated, \<^verbatim>\<open>cat2\<close> part first.
\<close>

definition split_images ::
  "'g rng \<Rightarrow> 'g \<Rightarrow> dataset \<Rightarrow> real \<Rightarrow> real \<Rightarrow> real
     \<Rightarrow> (image list \<times> image list \<times> image list) \<times> 'g" where
  "split_images r g0 data train_ratio val_ratio test_ratio =
     (let g1 = seed r 42;
          ((cat2_train, cat2_val, cat2_test), g2) =
             split_list r g1 (cat2_images data) train_ratio val_ratio test_ratio;
          ((other_train, other_val, other_test), g3) =
             split_list r g2 (other_images data) train_ratio val_ratio test_ratio;
          train_images = cat2_train @ other_train;
          val_images = cat2_val @ other_val;
          test_images = cat2_test @ other_test
      in ((train_images, val_images, test_images), g3))"

text \<open>The annotations of a split: the annotations whose image id is an id of the split.\<close>

definition image_ids :: "image list \<Rightarrow> int set" where
  "image_ids imgs = set (map img_id imgs)"

definition split_annotations :: "annotation list \<Rightarrow> image list \<Rightarrow> annotation list" where
  "split_annotations anns imgs = filter (\<lambda>ann. image_id ann \<in> image_ids imgs) anns"

definition create_output_data :: "dataset \<Rightarrow> image list \<Rightarrow> annotation list \<Rightarrow> dataset" where
  "create_output_data data images_subset annotations_subset =
     \<lparr>images = images_subset,
      annotations = annotations_subset,
      info = Some (case info data of None \<Rightarrow> ''{}'' | Some j \<Rightarrow> j),
      licenses = Some (case licenses data of None \<Rightarrow> ''[]'' | Some j \<Rightarrow> j),
      categories = Some (case categories data of None \<Rightarrow> ''[]'' | Some j \<Rightarrow> j)\<rparr>"

definition split_data ::
  "'g rng \<Rightarrow> 'g \<Rightarrow> dataset \<Rightarrow> real \<Rightarrow> real \<Rightarrow> real \<Rightarrow> (dataset \<times> dataset \<times> dataset) \<times> 'g" where
  "split_data r g0 data train_ratio val_ratio test_ratio =
     (let ((train_images, val_images, test_images), g) =
             split_images r g0 data train_ratio val_ratio test_ratio;
          train_annotations = split_annotations (annotations data) train_images;
          val_annotations = split_annotations (annotations data) val_images;
          test_annotations = split_annotations (annotations data) test_images;
          train_data = create_output_data data train_images train_annotations;
          val_data = create_output_data data val_images val_annotations;
          test_data = create_output_data data test_images test_annotations
      in ((train_data, val_data, test_data), g))"

section \<open>Files\<close>

text \<open>
  What the run does to the outside world is a log of events, oldest first. The file
  system is a parameter: \<open>fs_read\<close> is what \<^verbatim>\<open>open\<close> and \<^verbatim>\<open>json.load\<close> give for a
  path (\<open>None\<close> when the file cannot be read or parsed), and \<open>fs_write k path\<close> is
  the outcome of writing to \<open>path\<close> when \<open>k\<close> events have happened before, so that
  the outcome of one write may depend on the earlier ones. \<open>home\<close> is
  \<^verbatim>\<open>os.path.expanduser('~')\<close>. The messages printed to the console are not modelled.
\<close>

datatype error = AssertionError | ReadError

datatype write_outcome = Written | PermissionError | OtherError

datatype event = ReadFile string | WriteFile string dataset write_outcome

record 'g env =
  env_rng :: "'g rng"
  fs_read :: "string \<Rightarrow> dataset option"
  fs_write :: "nat \<Rightarrow> string \<Rightarrow> write_outcome"
  home :: string

record 'g world =
  rng_state :: 'g
  log :: "event list"

definition write_file :: "'g env \<Rightarrow> 'g world \<Rightarrow> string \<Rightarrow> dataset \<Rightarrow> write_outcome \<times> 'g world" where
  "write_file env w file_path data =
     (let outcome = fs_write env (length (log w)) file_path
      in (outcome, w\<lparr>log := log w @ [WriteFile file_path data outcome]\<rparr>))"

text \<open>
  \<^verbatim>\<open>save_json(data, file_path)\<close>: the handler of \<^verbatim>\<open>PermissionError\<close> writes to the
  fallback path; any other exception of the first write, and any exception of the
  second, gives \<^verbatim>\<open>False\<close>.
\<close>

definition fallback_path :: "'g env \<Rightarrow> string \<Rightarrow> string" where
  "fallback_path env file_path = join (home env) (basename file_path)"

definition save_json :: "'g env \<Rightarrow> 'g world \<Rightarrow> dataset \<Rightarrow> string \<Rightarrow> bool \<times> 'g world" where
  "save_json env w data file_path =
     (case write_file env w file_path data of
        (Written, w1) \<Rightarrow> (True, w1)
      | (PermissionError, w1) \<Rightarrow>
          (case write_file env w1 (fallback_path env file_path) data of
             (Written, w2) \<Rightarrow> (True, w2)
           | (_, w2) \<Rightarrow> (False, w2))
      | (OtherError, w1) \<Rightarrow> (False, w1))"

text \<open>
  The three calls of \<^verbatim>\<open>save_json\<close> at the end of the script; the results are
  discarded there, they are kept here to state what happened to each file.
\<close>

definition save_all ::
  "'g env \<Rightarrow> 'g world \<Rightarrow> dataset \<times> dataset \<times> dataset \<Rightarrow> string \<times> string \<times> string
     \<Rightarrow> (bool \<times> bool \<times> bool) \<times> 'g world" where
  "save_all env w docs files =
     (case (docs, files) of ((train_data, val_data, test_data), (train_file, val_file, test_file)) \<Rightarrow>
        (let (ok1, w1) = save_json env w train_data train_file;
             (ok2, w2) = save_json env w1 val_data val_file;
             (ok3, w3) = save_json env w2 test_data test_file
         in ((ok1, ok2, ok3), w3)))"

section \<open>The whole run\<close>

definition ratios_ok :: "real \<Rightarrow> real \<Rightarrow> real \<Rightarrow> bool" where
  "ratios_ok train_ratio val_ratio test_ratio \<longleftrightarrow>
     \<bar>train_ratio + val_ratio + test_ratio - 1\<bar> < 1 / 10 ^ 6"

definition output_files :: "string \<Rightarrow> string \<times> string \<times> string" where
  "output_files input_file =
     (let output_dir = dirname input_file
      in (join output_dir ''train.json'', join output_dir ''val.json'',
          join output_dir ''test.json''))"

text \<open>
  \<^verbatim>\<open>split_coco_json(input_file, train_ratio, val_ratio, test_ratio)\<close>: the assertion,
  the read, the split, the three writes. The result is the raised error or the three
  paths returned, with the world after the run.
\<close>

definition split_coco_json ::
  "'g env \<Rightarrow> 'g world \<Rightarrow> string \<Rightarrow> real \<Rightarrow> real \<Rightarrow> real
     \<Rightarrow> (error + string \<times> string \<times> string) \<times> 'g world" where
  "split_coco_json env w input_file train_ratio val_ratio test_ratio =
     (if \<not> ratios_ok train_ratio val_ratio test_ratio then (Inl AssertionError, w)
      else
        (let w1 = w\<lparr>log := log w @ [ReadFile input_file]\<rparr>
         in case fs_read env input_file of
              None \<Rightarrow> (Inl ReadError, w1)
            | Some data \<Rightarrow>
                (let (docs, g) =
                       split_data (env_rng env) (rng_state w1) data train_ratio val_ratio test_ratio;
                     w2 = w1\<lparr>rng_state := g\<rparr>;
                     files = output_files input_file;
                     (oks, w3) = save_all env w2 docs files
                 in (Inr files, w3))))"

text \<open>The paths of the write attempts in a log, oldest first.\<close>

fun write_paths :: "event list \<Rightarrow> string list" where
  "write_paths [] = []"
| "write_paths (ReadFile p # es) = write_paths es"
| "write_paths (WriteFile p d outcome # es) = p # write_paths es"

section \<open>A generator and a data set to run the model on\<close>

text \<open>
  A linear congruential generator, standing in for the library's generator wherever the
  model is evaluated on a concrete input.
\<close>

definition lcg_next :: "int \<Rightarrow> int" where
  "lcg_next g = (g * 1103515245 + 12345) mod 2147483648"

definition lcg :: "int rng" where
  "lcg = \<lparr>seed = (\<lambda>s. s), randbelow = (\<lambda>g n. (nat (lcg_next g mod int n), lcg_next g))\<rparr>"

definition img :: "int \<Rightarrow> image" where
  "img k = \<lparr>img_id = k, img_fields = ''{}''\<rparr>"

definition ann :: "int \<Rightarrow> int \<Rightarrow> annotation" where
  "ann i c = \<lparr>image_id = i, category_id = c, ann_fields = ''{}''\<rparr>"

definition sample :: dataset where
  "sample =
     \<lparr>images = [img 1, img 2, img 3, img 4, img 5, img 6],
      annotations = [ann 1 0, ann 2 1, ann 3 2, ann 4 2, ann 5 2, ann 6 2, ann 1 2],
      info = None, licenses = Some ''[]'', categories = Some ''[]''\<rparr>"

definition sample_dup :: dataset where
  "sample_dup = sample\<lparr>images := [img 1, img 2, img 3, img 4, img 5, img 5, img 6]\<rparr>"

definition sample_env :: "int env" where
  "sample_env =
     \<lparr>env_rng = lcg,
      fs_read = (\<lambda>p. if p = ''/data/result.json'' then Some sample else None),
      fs_write = (\<lambda>k p. if p = ''/data/train.json'' then PermissionError
                         else if p = ''/data/val.json'' then OtherError else Written),
      home = ''/home/user''\<rparr>"

definition sample_world :: "int world" where
  "sample_world = \<lparr>rng_state = 7, log = []\<rparr>"

section \<open>Notions used to state the properties\<close>

text \<open>
  The two strata after their shuffles: the priority stratum is shuffled first, from the
  generator seeded with 42, and the other stratum with the generator state the first
  shuffle left.
\<close>

definition shuffled_cat2 :: "'g rng \<Rightarrow> dataset \<Rightarrow> image list" where
  "shuffled_cat2 r data = fst (shuffle r (seed r 42) (cat2_images data))"

definition shuffled_other :: "'g rng \<Rightarrow> dataset \<Rightarrow> image list" where
  "shuffled_other r data =
     fst (shuffle r (snd (shuffle r (seed r 42) (cat2_images data))) (other_images data))"

text \<open>
  The failure policy of the writer as the specification words it: the paths a call of
  the writer tries when \<open>k\<close> events have happened before, and the result it reports.
\<close>

definition expected_attempts :: "'g env \<Rightarrow> nat \<Rightarrow> string \<Rightarrow> string list" where
  "expected_attempts env k file_path =
     (if fs_write env k file_path = PermissionError
      then [file_path, join (home env) (basename file_path)]
      else [file_path])"

definition expected_result :: "'g env \<Rightarrow> nat \<Rightarrow> string \<Rightarrow> bool" where
  "expected_result env k file_path =
     (case fs_write env k file_path of
        Written \<Rightarrow> True
      | PermissionError \<Rightarrow> fs_write env (Suc k) (join (home env) (basename file_path)) = Written
      | OtherError \<Rightarrow> False)"

section \<open>Slices\<close>

lemma py_int_nonneg: "0 \<le> x \<Longrightarrow> py_int x = \<lfloor>x\<rfloor>"
  by (simp add: py_int_def)

lemma py_slice_prefix: "0 \<le> a \<Longrightarrow> py_slice xs None (Some a) = take (nat a) xs"
  by (simp add: py_slice_def slice_index_def Let_def min_def)

lemma py_slice_middle:
  "0 \<le> a \<Longrightarrow> 0 \<le> b \<Longrightarrow> py_slice xs (Some a) (Some (a + b)) = take (nat b) (drop (nat a) xs)"
  by (auto simp: py_slice_def slice_index_def Let_def min_def nat_add_distrib)

lemma py_slice_suffix: "0 \<le> a \<Longrightarrow> py_slice xs (Some a) None = drop (nat a) xs"
  by (simp add: py_slice_def slice_index_def Let_def min_def)

lemma slices_nonneg:
  assumes "0 \<le> train_r" "0 \<le> val_r"
  shows "slices items train_r val_r =
     (take (nat \<lfloor>real (length items) * train_r\<rfloor>) items,
      take (nat \<lfloor>real (length items) * val_r\<rfloor>)
        (drop (nat \<lfloor>real (length items) * train_r\<rfloor>) items),
      drop (nat \<lfloor>real (length items) * train_r\<rfloor> + nat \<lfloor>real (length items) * val_r\<rfloor>) items)"
proof -
  have a: "0 \<le> \<lfloor>real (length items) * train_r\<rfloor>" using assms by simp
  have b: "0 \<le> \<lfloor>real (length items) * val_r\<rfloor>" using assms by simp
  show ?thesis
    using a b assms
    by (simp add: slices_def Let_def train_count_def val_count_def py_int_nonneg
        py_slice_prefix py_slice_middle py_slice_suffix nat_add_distrib)
qed

lemma slices_append:
  assumes "0 \<le> train_r" "0 \<le> val_r" "slices items train_r val_r = (tr, va, te)"
  shows "tr @ va @ te = items"
proof -
  have "take a items @ take b (drop a items) @ drop (a + b) items = items" for a b
    by (metis append_take_drop_id drop_drop add.commute)
  then show ?thesis using assms(3) unfolding slices_nonneg [OF assms(1,2)] by auto
qed

lemma py_slice_subset: "set (py_slice xs lo hi) \<subseteq> set xs"
proof -
  have "set (take n (drop m xs)) \<subseteq> set xs" for n m
    using set_take_subset [of n "drop m xs"] set_drop_subset [of m xs] by blast
  then show ?thesis by (simp add: py_slice_def Let_def)
qed

lemma slices_subset:
  assumes "slices items train_r val_r = (tr, va, te)"
  shows "set (tr @ va @ te) \<subseteq> set items"
proof -
  have "tr = py_slice items None (Some (train_count (length items) train_r))"
    and "va = py_slice items (Some (train_count (length items) train_r))
          (Some (train_count (length items) train_r + val_count (length items) val_r))"
    and "te = py_slice items
          (Some (train_count (length items) train_r + val_count (length items) val_r)) None"
    using assms by (simp_all add: slices_def Let_def)
  then show ?thesis using py_slice_subset [of items] by auto
qed

section \<open>The shuffle permutes\<close>



lemma shuffle_from_mset:
  "rng_ok r \<Longrightarrow> k < length x \<Longrightarrow> mset (fst (shuffle_from r k g x)) = mset x"
proof (induction k arbitrary: g x)
  case 0
  then show ?case by simp
next
  case (Suc k)
  obtain j g' where jg: "randbelow r g (Suc k + 1) = (j, g')"
    by (cases "randbelow r g (Suc k + 1)")
  from Suc.prems(1) have "fst (randbelow r g (Suc k + 1)) < Suc k + 1"
    unfolding rng_ok_def by simp
  with jg have j: "j < length x" using Suc.prems(2) by simp
  have "mset (x[Suc k := x ! j, j := x ! Suc k]) = mset x"
    using mset_swap [OF j Suc.prems(2)] .
  moreover have "mset (fst (shuffle_from r k g' (x[Suc k := x ! j, j := x ! Suc k])))
     = mset (x[Suc k := x ! j, j := x ! Suc k])"
    using Suc.IH [OF Suc.prems(1)] Suc.prems(2) by simp
  ultimately show ?case using jg by (simp add: Let_def)
qed

lemma shuffle_mset: "rng_ok r \<Longrightarrow> mset (fst (shuffle r g x)) = mset x"
proof (cases x)
  case Nil
  then show ?thesis by (simp add: shuffle_def)
next
  case (Cons a as)
  assume "rng_ok r"
  then show ?thesis using Cons by (simp add: shuffle_def shuffle_from_mset)
qed

lemma lcg_ok: "rng_ok lcg"
proof -
  have "nat (lcg_next g mod int n) < n" if "0 < n" for g n
  proof -
    have "lcg_next g mod int n < int n" "0 \<le> lcg_next g mod int n" using that by simp_all
    then show ?thesis by linarith
  qed
  then show ?thesis by (simp add: rng_ok_def lcg_def)
qed

section \<open>The strata\<close>

lemma cat2_images_loop_set:
  "set (cat2_images_loop c1 c2 imgs acc) =
     set acc \<union> {x \<in> set imgs. img_id x \<in> c2 \<or> img_id x \<in> c1}"
  by (induction imgs arbitrary: acc) auto

lemma cat2_images_loop_distinct:
  "distinct acc \<Longrightarrow> distinct (cat2_images_loop c1 c2 imgs acc)"
  by (induction imgs arbitrary: acc) auto

lemma other_images_loop_set:
  "set (other_images_loop cat2 imgs acc) = set acc \<union> (set imgs - set cat2)"
  by (induction imgs arbitrary: acc) auto

lemma other_images_loop_distinct:
  "distinct acc \<Longrightarrow> distinct (other_images_loop cat2 imgs acc)"
  by (induction imgs arbitrary: acc) auto

lemma strata_distinct: "distinct (cat2_images data @ other_images data)"
  by (auto simp: cat2_images_def other_images_def cat2_images_loop_distinct
      other_images_loop_distinct other_images_loop_set)

lemma strata_set: "set (cat2_images data @ other_images data) = set (images data)"
  by (auto simp: cat2_images_def other_images_def cat2_images_loop_set other_images_loop_set)

lemma strata_mset: "mset (cat2_images data @ other_images data) = mset (remdups (images data))"
  using strata_distinct strata_set
  by (metis distinct_remdups set_eq_iff_mset_eq_distinct set_remdups)

lemma cat2_images_set:
  "set (cat2_images data) =
     {i \<in> set (images data). img_id i \<in> cat2_image_ids (annotations data) \<or>
        img_id i \<in> cat1_image_ids (annotations data)}"
  by (simp add: cat2_images_def cat2_images_loop_set)

lemma other_images_set:
  "set (other_images data) = set (images data) - set (cat2_images data)"
  by (simp add: other_images_def other_images_loop_set)

section \<open>The image lists of the splits\<close>

lemma split_images_parts:
  "fst (split_images r g0 data train_ratio val_ratio test_ratio) =
     (case slices (shuffled_cat2 r data) train_ratio val_ratio of
        (cat2_train, cat2_val, cat2_test) \<Rightarrow>
          (case slices (shuffled_other r data) train_ratio val_ratio of
             (other_train, other_val, other_test) \<Rightarrow>
               (cat2_train @ other_train, cat2_val @ other_val, cat2_test @ other_test)))"
  by (simp add: split_images_def split_list_def shuffled_cat2_def shuffled_other_def
      Let_def split: prod.splits)

lemma shuffled_strata_mset:
  assumes "rng_ok r"
  shows "mset (shuffled_cat2 r data) + mset (shuffled_other r data) = mset (remdups (images data))"
proof -
  have "mset (shuffled_cat2 r data) = mset (cat2_images data)"
    unfolding shuffled_cat2_def using assms by (rule shuffle_mset)
  moreover have "mset (shuffled_other r data) = mset (other_images data)"
    unfolding shuffled_other_def using assms by (rule shuffle_mset)
  ultimately show ?thesis using strata_mset [of data] by simp
qed

lemma split_images_mset:
  assumes ok: "rng_ok r" and tr: "0 \<le> train_ratio" and vr: "0 \<le> val_ratio"
    and eq: "fst (split_images r g0 data train_ratio val_ratio test_ratio) = (train, val, test)"
  shows "mset (train @ val @ test) = mset (remdups (images data))"
proof -
  obtain ct cv ce where c: "slices (shuffled_cat2 r data) train_ratio val_ratio = (ct, cv, ce)"
    by (cases "slices (shuffled_cat2 r data) train_ratio val_ratio") auto
  obtain ot ov oe where o: "slices (shuffled_other r data) train_ratio val_ratio = (ot, ov, oe)"
    by (cases "slices (shuffled_other r data) train_ratio val_ratio") auto
  have parts: "train = ct @ ot" "val = cv @ ov" "test = ce @ oe"
    using eq c o by (simp_all add: split_images_parts)
  have "ct @ cv @ ce = shuffled_cat2 r data" using slices_append [OF tr vr c] .
  then have m1: "mset ct + mset cv + mset ce = mset (shuffled_cat2 r data)"
    by (metis mset_append add.assoc)
  have "ot @ ov @ oe = shuffled_other r data" using slices_append [OF tr vr o] .
  then have m2: "mset ot + mset ov + mset oe = mset (shuffled_other r data)"
    by (metis mset_append add.assoc)
  have "mset (train @ val @ test) = (mset ct + mset cv + mset ce) + (mset ot + mset ov + mset oe)"
    by (simp add: parts)
  then show ?thesis using m1 m2 shuffled_strata_mset [OF ok, of data] by simp
qed

lemma split_data_images:
  "fst (split_data r g0 data a b c) = (train, val, test) \<Longrightarrow>
     fst (split_images r g0 data a b c) = (images train, images val, images test)"
  by (auto simp: split_data_def create_output_data_def Let_def split: prod.splits)

lemma split_data_annotations:
  "fst (split_data r g0 data a b c) = (train, val, test) \<Longrightarrow>
     annotations train = split_annotations (annotations data) (images train) \<and>
     annotations val = split_annotations (annotations data) (images val) \<and>
     annotations test = split_annotations (annotations data) (images test)"
  by (auto simp: split_data_def create_output_data_def Let_def split: prod.splits)

section \<open>Runs on the sample data\<close>

lemma sample_split_negative:
  "fst (split_images lcg g0 sample (-1/4) (3/4) (1/2)) =
     ([img 4, img 6, img 5], [img 1], [img 2, img 5, img 3])"
  unfolding split_images_parts by code_simp

lemma sample_dup_split_negative:
  "fst (split_images lcg g0 sample_dup (-1/4) (3/4) (1/2)) =
     ([img 4, img 6, img 5], [img 1], [img 2, img 5, img 3])"
  unfolding split_images_parts by code_simp

lemma sample_split:
  "fst (split_images lcg g0 sample (8/10) (1/10) (1/10)) =
     ([img 1, img 4, img 6, img 5], [], [img 2, img 3])"
  unfolding split_images_parts by code_simp

lemma sample_dup_split:
  "fst (split_images lcg g0 sample_dup (8/10) (1/10) (1/10)) =
     ([img 1, img 4, img 6, img 5], [], [img 2, img 3])"
  unfolding split_images_parts by code_simp

lemma sample_data_split:
  "fst (split_data lcg g0 sample (8/10) (1/10) (1/10)) =
     (create_output_data sample [img 1, img 4, img 6, img 5]
        [ann 1 0, ann 4 2, ann 5 2, ann 6 2, ann 1 2],
      create_output_data sample [] [],
      create_output_data sample [img 2, img 3] [ann 2 1, ann 3 2])"
proof -
  have a: "split_annotations (annotations sample) [img 1, img 4, img 6, img 5] =
      [ann 1 0, ann 4 2, ann 5 2, ann 6 2, ann 1 2]"
    by code_simp
  have b: "split_annotations (annotations sample) [] = []"
    by code_simp
  have c: "split_annotations (annotations sample) [img 2, img 3] = [ann 2 1, ann 3 2]"
    by code_simp
  obtain t v e g where sp: "split_images lcg g0 sample (8/10) (1/10) (1/10) = ((t, v, e), g)"
    by (metis prod.collapse)
  with sample_split [of g0] have "t = [img 1, img 4, img 6, img 5]" "v = []" "e = [img 2, img 3]"
    by simp_all
  with sp a b c show ?thesis by (simp add: split_data_def Let_def)
qed

section \<open>Annotations of a split refer to images of the split\<close>

text \<open>
  Claim C1. Every annotation record in the annotations list of an output split (train,
  val or test) has an \<^verbatim>\<open>image_id\<close> that is the \<^verbatim>\<open>id\<close> of an image record in the images
  list of the same split. This holds for every input document, every ratio triple and
  every generator.
\<close>

theorem no_dangling_annotations:
  assumes "fst (split_data r g0 data train_ratio val_ratio test_ratio) =
             (train_data, val_data, test_data)"
  shows "(\<forall>a \<in> set (annotations train_data).
            \<exists>i \<in> set (images train_data). img_id i = image_id a) \<and>
         (\<forall>a \<in> set (annotations val_data).
            \<exists>i \<in> set (images val_data). img_id i = image_id a) \<and>
         (\<forall>a \<in> set (annotations test_data).
            \<exists>i \<in> set (images test_data). img_id i = image_id a)"
  using split_data_annotations [OF assms]
  by (auto simp: split_annotations_def image_ids_def)

theorem no_dangling_annotations_witness:
  "fst (split_data lcg 0 sample (8/10) (1/10) (1/10)) =
     (create_output_data sample [img 1, img 4, img 6, img 5]
        [ann 1 0, ann 4 2, ann 5 2, ann 6 2, ann 1 2],
      create_output_data sample [] [],
      create_output_data sample [img 2, img 3] [ann 2 1, ann 3 2]) \<and>
   ann 2 1 \<in> set (annotations (create_output_data sample [img 2, img 3] [ann 2 1, ann 3 2])) \<and>
   img 2 \<in> set (images (create_output_data sample [img 2, img 3] [ann 2 1, ann 3 2])) \<and>
   img_id (img 2) = image_id (ann 2 1)"
  using no_dangling_annotations [OF sample_data_split [of 0]] sample_data_split [of 0]
  by (simp add: create_output_data_def img_def ann_def)

section \<open>More runs on the sample data\<close>

lemma sample_data_split_negative:
  "fst (split_data lcg g0 sample (-1/4) (3/4) (1/2)) =
     (create_output_data sample [img 4, img 6, img 5] [ann 4 2, ann 5 2, ann 6 2],
      create_output_data sample [img 1] [ann 1 0, ann 1 2],
      create_output_data sample [img 2, img 5, img 3] [ann 2 1, ann 3 2, ann 5 2])"
proof -
  have a: "split_annotations (annotations sample) [img 4, img 6, img 5] =
      [ann 4 2, ann 5 2, ann 6 2]"
    by code_simp
  have b: "split_annotations (annotations sample) [img 1] = [ann 1 0, ann 1 2]"
    by code_simp
  have c: "split_annotations (annotations sample) [img 2, img 5, img 3] =
      [ann 2 1, ann 3 2, ann 5 2]"
    by code_simp
  obtain t v e g where sp: "split_images lcg g0 sample (-1/4) (3/4) (1/2) = ((t, v, e), g)"
    by (metis prod.collapse)
  with sample_split_negative [of g0]
  have "t = [img 4, img 6, img 5]" "v = [img 1]" "e = [img 2, img 5, img 3]"
    by simp_all
  with sp a b c show ?thesis by (simp add: split_data_def Let_def)
qed




lemma sample_shuffled_cat2: "shuffled_cat2 lcg sample = [img 1, img 2]"
  by code_simp

lemma sample_shuffled_other: "shuffled_other lcg sample = [img 4, img 6, img 5, img 3]"
  by code_simp

lemma sample_slices_cat2: "slices [img 1, img 2] (8/10) (1/10) = ([img 1], [], [img 2])"
  by code_simp

lemma sample_slices_other:
  "slices [img 4, img 6, img 5, img 3] (8/10) (1/10) = ([img 4, img 6, img 5], [], [img 3])"
  by code_simp

section \<open>The splits partition the images\<close>

text \<open>
  Claim C2, amended. When no two image records of the input are equal (as when no
  identifier appears twice), the train ratio and the val ratio are not negative and the
  generator keeps its contract, the lengths of the three output image lists sum to the
  length of the input image list.
\<close>

theorem images_partitioned:
  assumes "rng_ok r" and "distinct (images data)"
    and "0 \<le> train_ratio" and "0 \<le> val_ratio"
    and "fst (split_images r g0 data train_ratio val_ratio test_ratio) =
           (train_images, val_images, test_images)"
  shows "length train_images + length val_images + length test_images = length (images data)"
proof -
  have "mset (train_images @ val_images @ test_images) = mset (remdups (images data))"
    using split_images_mset [OF assms(1,3,4,5)] .
  then have "size (mset (train_images @ val_images @ test_images)) = size (mset (images data))"
    using assms(2) by (simp add: distinct_remdups_id)
  then show ?thesis by simp
qed

theorem images_partitioned_witness:
  "rng_ok lcg \<and> distinct (images sample) \<and> (0::real) \<le> 8/10 \<and> (0::real) \<le> 1/10 \<and>
   fst (split_images lcg 0 sample (8/10) (1/10) (1/10)) =
     ([img 1, img 4, img 6, img 5], [], [img 2, img 3]) \<and>
   length [img 1, img 4, img 6, img 5] + length ([]::image list) + length [img 2, img 3] =
     length (images sample)"
proof -
  have d: "distinct (images sample)" by (simp add: sample_def img_def)
  have a: "(0::real) \<le> 8/10" and b: "(0::real) \<le> 1/10" by simp_all
  show ?thesis
    using images_partitioned [OF lcg_ok d a b sample_split [of 0]] lcg_ok d sample_split [of 0]
    by simp
qed

text \<open>
  Without the condition on the ratios the sum of the lengths can exceed the number of
  images. The ratios \<open>-1/4, 3/4, 1/2\<close> sum to 1 and pass the assertion. On the six
  images of \<open>sample\<close> the other stratum has four images: its train count is
  \<^verbatim>\<open>int(-1.0) = -1\<close>, so its train part is \<^verbatim>\<open>items[:-1]\<close>, three images, and its
  test part is \<^verbatim>\<open>items[2:]\<close>, two images. With the two images of the priority stratum
  the three lists hold seven images.
\<close>

theorem images_partitioned_counterexample:
  "ratios_ok (-1/4) (3/4) (1/2) \<and> distinct (map img_id (images sample)) \<and>
   distinct (images sample) \<and>
   length (fst (fst (split_images lcg 0 sample (-1/4) (3/4) (1/2)))) +
   length (fst (snd (fst (split_images lcg 0 sample (-1/4) (3/4) (1/2))))) +
   length (snd (snd (fst (split_images lcg 0 sample (-1/4) (3/4) (1/2))))) \<noteq>
   length (images sample)"
  unfolding sample_split_negative
  by (simp add: ratios_ok_def sample_def img_def)

section \<open>Floor counts and the remainder\<close>





section \<open>The writer\<close>

lemma write_paths_append: "write_paths (es @ fs) = write_paths es @ write_paths fs"
  by (induction es rule: write_paths.induct) simp_all

lemma save_json_paths:
  "write_paths (log (snd (save_json env w data file_path))) =
     write_paths (log w) @ expected_attempts env (length (log w)) file_path"
  by (cases "fs_write env (length (log w)) file_path";
      cases "fs_write env (Suc (length (log w))) (join (home env) (basename file_path))")
     (simp_all add: save_json_def write_file_def expected_attempts_def
        fallback_path_def write_paths_append)

lemma save_json_length:
  "length (log (snd (save_json env w data file_path))) =
     length (log w) + length (expected_attempts env (length (log w)) file_path)"
  by (cases "fs_write env (length (log w)) file_path";
      cases "fs_write env (Suc (length (log w))) (join (home env) (basename file_path))")
     (simp_all add: save_json_def write_file_def expected_attempts_def fallback_path_def)

lemma save_json_result:
  "fst (save_json env w data file_path) = expected_result env (length (log w)) file_path"
  by (cases "fs_write env (length (log w)) file_path";
      cases "fs_write env (Suc (length (log w))) (join (home env) (basename file_path))")
     (simp_all add: save_json_def write_file_def expected_result_def fallback_path_def)


lemma save_all_unfold:
  "save_all env w (d1, d2, d3) (f1, f2, f3) =
     ((fst (save_json env w d1 f1),
       fst (save_json env (snd (save_json env w d1 f1)) d2 f2),
       fst (save_json env (snd (save_json env (snd (save_json env w d1 f1)) d2 f2)) d3 f3)),
      snd (save_json env (snd (save_json env (snd (save_json env w d1 f1)) d2 f2)) d3 f3))"
  by (simp add: save_all_def Let_def split: prod.splits)


text \<open>
  Claim C8. A call of the writer tries the primary path; if that write fails with a
  permission error it tries once more, on the path made of the home directory and the
  base name of the file, and nothing else is tried. The call reports success when the
  primary write or the fallback write succeeds, and failure otherwise. The three files
  are written one after the other and each is attempted whatever happened to the ones
  before.
\<close>

theorem writer_failure_policy:
  "write_paths (log (snd (save_json env w data file_path))) =
     write_paths (log w) @ expected_attempts env (length (log w)) file_path \<and>
   fst (save_json env w data file_path) = expected_result env (length (log w)) file_path \<and>
   (let k1 = length (log w);
        a1 = expected_attempts env k1 train_file;
        k2 = k1 + length a1;
        a2 = expected_attempts env k2 val_file;
        k3 = k2 + length a2;
        a3 = expected_attempts env k3 test_file
    in write_paths (log (snd (save_all env w (train_data, val_data, test_data)
                                (train_file, val_file, test_file)))) =
         write_paths (log w) @ a1 @ a2 @ a3 \<and>
       fst (save_all env w (train_data, val_data, test_data) (train_file, val_file, test_file)) =
         (expected_result env k1 train_file, expected_result env k2 val_file,
          expected_result env k3 test_file))"
proof -
  let ?k1 = "length (log w)"
  let ?a1 = "expected_attempts env ?k1 train_file"
  let ?a2 = "expected_attempts env (?k1 + length ?a1) val_file"
  let ?a3 = "expected_attempts env (?k1 + length ?a1 + length ?a2) test_file"
  let ?w1 = "snd (save_json env w train_data train_file)"
  let ?w2 = "snd (save_json env ?w1 val_data val_file)"
  let ?w3 = "snd (save_json env ?w2 test_data test_file)"
  have k2: "length (log ?w1) = ?k1 + length ?a1" by (rule save_json_length)
  have k3: "length (log ?w2) = ?k1 + length ?a1 + length ?a2"
    using save_json_length [of env ?w1 val_data val_file] k2 by simp
  have p1: "write_paths (log ?w1) = write_paths (log w) @ ?a1" by (rule save_json_paths)
  have p2: "write_paths (log ?w2) = write_paths (log w) @ ?a1 @ ?a2"
    using save_json_paths [of env ?w1 val_data val_file] p1 k2 by simp
  have p3: "write_paths (log ?w3) = write_paths (log w) @ ?a1 @ ?a2 @ ?a3"
    using save_json_paths [of env ?w2 test_data test_file] p2 k3 by simp
  have r2: "fst (save_json env ?w1 val_data val_file) =
      expected_result env (?k1 + length ?a1) val_file"
    using save_json_result [of env ?w1 val_data val_file] k2 by simp
  have r3: "fst (save_json env ?w2 test_data test_file) =
      expected_result env (?k1 + length ?a1 + length ?a2) test_file"
    using save_json_result [of env ?w2 test_data test_file] k3 by simp
  show ?thesis
    using p3 r2 r3
    by (simp add: save_all_unfold Let_def save_json_paths save_json_result)
qed

theorem writer_failure_policy_witness:
  "write_paths (log (snd (save_json sample_env sample_world sample ''/data/train.json''))) =
     [''/data/train.json'', ''/home/user/train.json''] \<and>
   fst (save_json sample_env sample_world sample ''/data/train.json'') = True \<and>
   write_paths (log (snd (save_all sample_env sample_world (sample, sample, sample)
       (''/data/train.json'', ''/data/val.json'', ''/data/test.json'')))) =
     [''/data/train.json'', ''/home/user/train.json'', ''/data/val.json'', ''/data/test.json''] \<and>
   fst (save_all sample_env sample_world (sample, sample, sample)
       (''/data/train.json'', ''/data/val.json'', ''/data/test.json'')) = (True, False, True)"
  using writer_failure_policy [of sample_env sample_world sample "''/data/train.json''"
      "''/data/train.json''" "''/data/val.json''" "''/data/test.json''" sample sample sample]
  by (simp add: expected_attempts_def expected_result_def sample_env_def sample_world_def
      join_def basename_def Let_def)

section \<open>The assertion on the ratios\<close>



section \<open>Determinism\<close>

lemma split_images_seeded:
  "split_images r g0 data a b c = split_images r g1 data a b c"
  by (simp add: split_images_def)

lemma split_data_seeded:
  "split_data r g0 data a b c = split_data r g1 data a b c"
  by (simp add: split_data_def split_images_seeded [of r g0 data a b c g1])

text \<open>
  Claim C5. The three output documents are a function of the input document and the
  ratios alone: the state the process-wide generator has when the run starts does not
  influence them, since the generator is seeded with 42 before the first shuffle. Two
  runs on the same files with the same ratios return the same result and make the same
  reads and writes, with the same documents.
\<close>

theorem split_deterministic:
  "split_data r g0 data train_ratio val_ratio test_ratio =
     split_data r g1 data train_ratio val_ratio test_ratio \<and>
   fst (split_coco_json env (w\<lparr>rng_state := g\<rparr>) input_file train_ratio val_ratio test_ratio) =
     fst (split_coco_json env w input_file train_ratio val_ratio test_ratio) \<and>
   log (snd (split_coco_json env (w\<lparr>rng_state := g\<rparr>) input_file train_ratio val_ratio test_ratio)) =
     log (snd (split_coco_json env w input_file train_ratio val_ratio test_ratio))"
proof -
  have sd: "split_data (env_rng env) g data train_ratio val_ratio test_ratio =
      split_data (env_rng env) (rng_state w) data train_ratio val_ratio test_ratio" for data
    by (rule split_data_seeded)
  show ?thesis
    by (auto simp: split_coco_json_def Let_def sd split_data_seeded [of r g0 data _ _ _ g1]
        split: option.splits prod.splits)
qed

section \<open>Annotations are filtered in order\<close>

text \<open>
  Claim C6. The annotations list of each split is the input annotations list filtered
  by membership of the \<^verbatim>\<open>image_id\<close> in the set of ids of the split's images: the
  annotations kept are in the order they have in the input.
\<close>

theorem annotations_stable_filter:
  assumes "fst (split_data r g0 data train_ratio val_ratio test_ratio) =
             (train_data, val_data, test_data)"
  shows "annotations train_data =
           filter (\<lambda>a. image_id a \<in> img_id ` set (images train_data)) (annotations data) \<and>
         annotations val_data =
           filter (\<lambda>a. image_id a \<in> img_id ` set (images val_data)) (annotations data) \<and>
         annotations test_data =
           filter (\<lambda>a. image_id a \<in> img_id ` set (images test_data)) (annotations data)"
  using split_data_annotations [OF assms]
  by (simp add: split_annotations_def image_ids_def)

theorem annotations_stable_filter_witness:
  "fst (split_data lcg 0 sample (8/10) (1/10) (1/10)) =
     (create_output_data sample [img 1, img 4, img 6, img 5]
        [ann 1 0, ann 4 2, ann 5 2, ann 6 2, ann 1 2],
      create_output_data sample [] [],
      create_output_data sample [img 2, img 3] [ann 2 1, ann 3 2]) \<and>
   [ann 1 0, ann 4 2, ann 5 2, ann 6 2, ann 1 2] =
     filter (\<lambda>a. image_id a \<in> img_id ` set [img 1, img 4, img 6, img 5]) (annotations sample) \<and>
   [] = filter (\<lambda>a. image_id a \<in> img_id ` set []) (annotations sample) \<and>
   [ann 2 1, ann 3 2] =
     filter (\<lambda>a. image_id a \<in> img_id ` set [img 2, img 3]) (annotations sample)"
  using annotations_stable_filter [OF sample_data_split [of 0]] sample_data_split [of 0]
  by (simp add: create_output_data_def)

section \<open>Order of the output image lists\<close>

text \<open>
  Claim C7. Each of the three output image lists is the part of the shuffled priority
  stratum followed by the part of the shuffled other stratum, where the parts are the
  slices of the strata in their order after the shuffle. The parts of the priority
  stratum hold only images whose id is referenced by an annotation of category 0 or 1,
  the parts of the other stratum only images whose id is not.
\<close>

theorem priority_stratum_first:
  assumes "rng_ok r"
    and "fst (split_images r g0 data train_ratio val_ratio test_ratio) =
             (train_images, val_images, test_images)"
    and "slices (shuffled_cat2 r data) train_ratio val_ratio = (cat2_train, cat2_val, cat2_test)"
    and "slices (shuffled_other r data) train_ratio val_ratio = (other_train, other_val, other_test)"
  shows "train_images = cat2_train @ other_train \<and>
         val_images = cat2_val @ other_val \<and>
         test_images = cat2_test @ other_test \<and>
         (\<forall>i \<in> set (cat2_train @ cat2_val @ cat2_test).
            i \<in> set (images data) \<and>
            (img_id i \<in> cat1_image_ids (annotations data) \<or>
             img_id i \<in> cat2_image_ids (annotations data))) \<and>
         (\<forall>i \<in> set (other_train @ other_val @ other_test).
            i \<in> set (images data) \<and>
            img_id i \<notin> cat1_image_ids (annotations data) \<and>
            img_id i \<notin> cat2_image_ids (annotations data))"
proof -
  have lists: "train_images = cat2_train @ other_train" "val_images = cat2_val @ other_val"
    "test_images = cat2_test @ other_test"
    using assms(2,3,4) by (simp_all add: split_images_parts)
  have "mset (shuffled_cat2 r data) = mset (cat2_images data)"
    unfolding shuffled_cat2_def using assms(1) by (rule shuffle_mset)
  then have sc: "set (shuffled_cat2 r data) = set (cat2_images data)" by (rule mset_eq_setD)
  have "mset (shuffled_other r data) = mset (other_images data)"
    unfolding shuffled_other_def using assms(1) by (rule shuffle_mset)
  then have so: "set (shuffled_other r data) = set (other_images data)" by (rule mset_eq_setD)
  have c: "set (cat2_train @ cat2_val @ cat2_test) \<subseteq> set (cat2_images data)"
    using slices_subset [OF assms(3)] sc by simp
  have o: "set (other_train @ other_val @ other_test) \<subseteq> set (other_images data)"
    using slices_subset [OF assms(4)] so by simp
  have pri: "\<forall>i \<in> set (cat2_train @ cat2_val @ cat2_test).
            i \<in> set (images data) \<and>
            (img_id i \<in> cat1_image_ids (annotations data) \<or>
             img_id i \<in> cat2_image_ids (annotations data))"
    using c unfolding cat2_images_set by blast
  have oth: "\<forall>i \<in> set (other_train @ other_val @ other_test).
            i \<in> set (images data) \<and>
            img_id i \<notin> cat1_image_ids (annotations data) \<and>
            img_id i \<notin> cat2_image_ids (annotations data)"
    using o unfolding other_images_set cat2_images_set by blast
  show ?thesis using lists pri oth by blast
qed

theorem priority_stratum_first_witness:
  "rng_ok lcg \<and>
   fst (split_images lcg 0 sample (8/10) (1/10) (1/10)) =
     ([img 1, img 4, img 6, img 5], [], [img 2, img 3]) \<and>
   slices (shuffled_cat2 lcg sample) (8/10) (1/10) = ([img 1], [], [img 2]) \<and>
   slices (shuffled_other lcg sample) (8/10) (1/10) = ([img 4, img 6, img 5], [], [img 3]) \<and>
   [img 1, img 4, img 6, img 5] = [img 1] @ [img 4, img 6, img 5] \<and>
   ([]::image list) = [] @ [] \<and>
   [img 2, img 3] = [img 2] @ [img 3] \<and>
   img 2 \<in> set ([img 1] @ [] @ [img 2]) \<and>
   img 2 \<in> set (images sample) \<and>
   (img_id (img 2) \<in> cat1_image_ids (annotations sample) \<or>
    img_id (img 2) \<in> cat2_image_ids (annotations sample)) \<and>
   img 3 \<in> set ([img 4, img 6, img 5] @ [] @ [img 3]) \<and>
   img 3 \<in> set (images sample) \<and>
   img_id (img 3) \<notin> cat1_image_ids (annotations sample) \<and>
   img_id (img 3) \<notin> cat2_image_ids (annotations sample)"
proof -
  have c: "slices (shuffled_cat2 lcg sample) (8/10) (1/10) = ([img 1], [], [img 2])"
    by (simp only: sample_shuffled_cat2 sample_slices_cat2)
  have o: "slices (shuffled_other lcg sample) (8/10) (1/10) = ([img 4, img 6, img 5], [], [img 3])"
    by (simp only: sample_shuffled_other sample_slices_other)
  show ?thesis
    using priority_stratum_first [OF lcg_ok sample_split [of 0] c o] lcg_ok sample_split [of 0] c o
    by simp
qed

section \<open>Equal image records\<close>

text \<open>
  Claim C9, amended. Equal image records of the input are one image for the
  stratification: the two strata together hold every record of the input once. When
  the train ratio and the val ratio are not negative and the generator keeps its
  contract, the three output lists together hold every record of the input once, too.
\<close>

theorem duplicates_collapsed:
  assumes "rng_ok r" and "0 \<le> train_ratio" and "0 \<le> val_ratio"
    and "fst (split_images r g0 data train_ratio val_ratio test_ratio) =
           (train_images, val_images, test_images)"
  shows "distinct (cat2_images data @ other_images data) \<and>
         set (cat2_images data @ other_images data) = set (images data) \<and>
         distinct (train_images @ val_images @ test_images) \<and>
         set (train_images @ val_images @ test_images) = set (images data)"
proof -
  have m: "mset (train_images @ val_images @ test_images) = mset (remdups (images data))"
    using split_images_mset [OF assms] .
  have d: "distinct (train_images @ val_images @ test_images)"
    using mset_eq_imp_distinct_iff [OF m] by simp
  have s: "set (train_images @ val_images @ test_images) = set (images data)"
    using mset_eq_setD [OF m] by simp
  show ?thesis using strata_distinct [of data] strata_set [of data] d s by blast
qed

theorem duplicates_collapsed_witness:
  "rng_ok lcg \<and> (0::real) \<le> 8/10 \<and> (0::real) \<le> 1/10 \<and>
   fst (split_images lcg 0 sample_dup (8/10) (1/10) (1/10)) =
     ([img 1, img 4, img 6, img 5], [], [img 2, img 3]) \<and>
   \<not> distinct (images sample_dup) \<and>
   distinct (cat2_images sample_dup @ other_images sample_dup) \<and>
   set (cat2_images sample_dup @ other_images sample_dup) = set (images sample_dup) \<and>
   distinct ([img 1, img 4, img 6, img 5] @ [] @ [img 2, img 3]) \<and>
   set ([img 1, img 4, img 6, img 5] @ [] @ [img 2, img 3]) = set (images sample_dup)"
proof -
  have a: "(0::real) \<le> 8/10" and b: "(0::real) \<le> 1/10" by simp_all
  have n: "\<not> distinct (images sample_dup)" by (simp add: sample_dup_def)
  show ?thesis
    using duplicates_collapsed [OF lcg_ok a b sample_dup_split [of 0]] lcg_ok
      sample_dup_split [of 0] n
    by simp
qed

text \<open>
  With a negative ratio a record can occur in two output lists. In \<open>sample_dup\<close> the
  record of image 5 occurs twice; with the ratios \<open>-1/4, 3/4, 1/2\<close> the slices of the
  other stratum overlap and the record is in the train list and in the test list.
\<close>

theorem duplicates_collapsed_counterexample:
  "ratios_ok (-1/4) (3/4) (1/2) \<and> \<not> distinct (images sample_dup) \<and>
   img 5 \<in> set (fst (fst (split_images lcg 0 sample_dup (-1/4) (3/4) (1/2)))) \<and>
   img 5 \<in> set (snd (snd (fst (split_images lcg 0 sample_dup (-1/4) (3/4) (1/2)))))"
  unfolding sample_dup_split_negative
  by (simp add: ratios_ok_def sample_dup_def sample_def)

section \<open>The splits are disjoint\<close>

text \<open>
  Claim C10, amended. When the image records of the input have pairwise distinct ids,
  the train ratio and the val ratio are not negative and the generator keeps its
  contract, the id sets of the three splits are pairwise disjoint, and no annotation is
  in the annotations lists of two splits.
\<close>

theorem splits_disjoint:
  assumes "rng_ok r" and "0 \<le> train_ratio" and "0 \<le> val_ratio"
    and "distinct (map img_id (images data))"
    and "fst (split_data r g0 data train_ratio val_ratio test_ratio) =
           (train_data, val_data, test_data)"
  shows "image_ids (images train_data) \<inter> image_ids (images val_data) = {} \<and>
         image_ids (images train_data) \<inter> image_ids (images test_data) = {} \<and>
         image_ids (images val_data) \<inter> image_ids (images test_data) = {} \<and>
         set (annotations train_data) \<inter> set (annotations val_data) = {} \<and>
         set (annotations train_data) \<inter> set (annotations test_data) = {} \<and>
         set (annotations val_data) \<inter> set (annotations test_data) = {}"
proof -
  let ?all = "images train_data @ images val_data @ images test_data"
  have di: "distinct (images data)" using assms(4) by (simp add: distinct_map)
  have "mset ?all = mset (remdups (images data))"
    using split_images_mset [OF assms(1,2,3) split_data_images [OF assms(5)]] .
  then have "mset ?all = mset (images data)" using di by (simp add: distinct_remdups_id)
  then have "mset (map img_id ?all) = mset (map img_id (images data))"
    by (metis mset_map)
  then have "distinct (map img_id ?all)"
    using assms(4) mset_eq_imp_distinct_iff by blast
  then have ids: "image_ids (images train_data) \<inter> image_ids (images val_data) = {}"
    "image_ids (images train_data) \<inter> image_ids (images test_data) = {}"
    "image_ids (images val_data) \<inter> image_ids (images test_data) = {}"
    by (auto simp: image_ids_def)
  have anns: "annotations train_data = split_annotations (annotations data) (images train_data)"
    "annotations val_data = split_annotations (annotations data) (images val_data)"
    "annotations test_data = split_annotations (annotations data) (images test_data)"
    using split_data_annotations [OF assms(5)] by simp_all
  have "set (annotations train_data) \<inter> set (annotations val_data) = {}"
    using ids(1) unfolding anns split_annotations_def by auto
  moreover have "set (annotations train_data) \<inter> set (annotations test_data) = {}"
    using ids(2) unfolding anns split_annotations_def by auto
  moreover have "set (annotations val_data) \<inter> set (annotations test_data) = {}"
    using ids(3) unfolding anns split_annotations_def by auto
  ultimately show ?thesis using ids by blast
qed

theorem splits_disjoint_witness:
  "rng_ok lcg \<and> (0::real) \<le> 8/10 \<and> (0::real) \<le> 1/10 \<and>
   distinct (map img_id (images sample)) \<and>
   fst (split_data lcg 0 sample (8/10) (1/10) (1/10)) =
     (create_output_data sample [img 1, img 4, img 6, img 5]
        [ann 1 0, ann 4 2, ann 5 2, ann 6 2, ann 1 2],
      create_output_data sample [] [],
      create_output_data sample [img 2, img 3] [ann 2 1, ann 3 2]) \<and>
   image_ids [img 1, img 4, img 6, img 5] \<inter> image_ids [img 2, img 3] = {} \<and>
   set [ann 1 0, ann 4 2, ann 5 2, ann 6 2, ann 1 2] \<inter> set [ann 2 1, ann 3 2] = {}"
proof -
  have a: "(0::real) \<le> 8/10" and b: "(0::real) \<le> 1/10" by simp_all
  have d: "distinct (map img_id (images sample))" by (simp add: sample_def img_def)
  show ?thesis
    using splits_disjoint [OF lcg_ok a b d sample_data_split [of 0]] lcg_ok d
      sample_data_split [of 0]
    by (simp add: create_output_data_def)
qed

text \<open>
  With a negative ratio the id sets can overlap. On \<open>sample\<close>, whose ids are
  distinct, the ratios \<open>-1/4, 3/4, 1/2\<close> put image 5 into train and into test, and
  its annotation into the annotations of both.
\<close>

theorem splits_disjoint_counterexample:
  "ratios_ok (-1/4) (3/4) (1/2) \<and> distinct (map img_id (images sample)) \<and>
   5 \<in> image_ids (images (fst (fst (split_data lcg 0 sample (-1/4) (3/4) (1/2))))) \<and>
   5 \<in> image_ids (images (snd (snd (fst (split_data lcg 0 sample (-1/4) (3/4) (1/2)))))) \<and>
   ann 5 2 \<in> set (annotations sample) \<and>
   ann 5 2 \<in> set (annotations (fst (fst (split_data lcg 0 sample (-1/4) (3/4) (1/2))))) \<and>
   ann 5 2 \<in> set (annotations (snd (snd (fst (split_data lcg 0 sample (-1/4) (3/4) (1/2))))))"
  unfolding sample_data_split_negative
  by (simp add: ratios_ok_def sample_def create_output_data_def image_ids_def img_def)

end
